theory Spec2Isabelle
  imports Complex_Main "HOL-Library.Multiset" "HOL-Library.Sublist"
begin

section \<open>Data model\<close>

text \<open>
  The interfaces of \<^verbatim>\<open>App.tsx\<close>. A JavaScript \<^verbatim>\<open>number\<close> that the client only stores and
  displays is a \<^typ>\<open>real\<close>; an optional field is an \<^typ>\<open>'a option\<close>; a
  \<^verbatim>\<open>Record<string, T>\<close> is a map. Strings are lists of ASCII characters.
\<close>

record Transaction =
  date :: string
  description :: string
  amount :: real
  type :: string
  category :: "string option"
  currency :: "string option"

datatype role = user | bot

record Message =
  role :: role
  content :: string

record Summary =
  total_income :: real
  total_expense :: real
  net_balance :: real
  transaction_count :: int

record Trend =
  income :: real
  expense :: real

record Merchant =
  name :: string
  "value" :: real

subsection \<open>Thrown values, responses, requests\<close>

text \<open>
  A thrown value is an \<^verbatim>\<open>Error\<close> carrying its message, or anything else
  (\<^verbatim>\<open>err instanceof Error\<close> is false).
\<close>

datatype thrown = Error string | NonError

text \<open>The error body of the API: \<^verbatim>\<open>interface ApiError { detail?: string; message?: string }\<close>.\<close>

record ApiError =
  detail :: "string option"
  message :: "string option"

text \<open>
  A resolved \<^verbatim>\<open>fetch\<close> is a response: \<open>Ok\<close> when \<^verbatim>\<open>response.ok\<close> holds (a 2xx status),
  \<open>NotOk\<close> otherwise, and \<^verbatim>\<open>response.json()\<close> either rejects (\<open>Inl\<close>) or yields the
  decoded body. A \<^verbatim>\<open>fetch\<close> that fails at transport level rejects.
\<close>

datatype 'a response = Ok (json: "thrown + 'a") | NotOk (errJson: "thrown + ApiError")

datatype 'a fetch_result = Rejected thrown | Resolved "'a response"

text \<open>The body of a chat request: \<^verbatim>\<open>{message, history, context}\<close>.\<close>

datatype body =
    NoBody
  | FormData string
  | ChatBody string "(string \<times> string) list" string

datatype request = GET string | POST string body

fun url :: "request \<Rightarrow> string" where
  "url (GET u) = u"
| "url (POST u _) = u"

text \<open>
  The two shapes of a successful upload body: \<^verbatim>\<open>{transactions: [...], metadata?: {currency?}}\<close>
  or a bare array of transactions.
\<close>

record Metadata =
  currency :: "string option"

datatype upload_data =
    Structured "Transaction list" "Metadata option"
  | BareArray "Transaction list"

subsection \<open>The state of the App component\<close>

text \<open>
  One field for each \<^verbatim>\<open>useState\<close> of \<^verbatim>\<open>App\<close>; \<open>fileInput\<close> is the value of the file
  input behind \<^verbatim>\<open>fileInputRef\<close> (\<open>None\<close> while the ref is empty); \<open>network\<close> records, in
  order, the requests handed to \<^verbatim>\<open>fetch\<close>.
\<close>

record App =
  isUploading :: bool
  isLoadingData :: bool
  error :: "string option"
  fileInput :: "string option"
  transactions :: "Transaction list"
  messages :: "Message list"
  currency :: string
  summary :: Summary
  spending :: "string \<rightharpoonup> real"
  trends :: "string \<rightharpoonup> Trend"
  merchants :: "Merchant list"
  network :: "request list"

section \<open>Statements that may throw\<close>

text \<open>
  A statement maps the state to the state it leaves, with the value it threw, if any.
  State changes made before a throw stay made, as with the \<^verbatim>\<open>set...\<close> calls of the source.
\<close>

type_synonym 's stmt = "'s \<Rightarrow> thrown option \<times> 's"

definition exec :: "('s \<Rightarrow> 's) \<Rightarrow> 's stmt" where
  "exec f s = (None, f s)"

definition throw :: "thrown \<Rightarrow> 's stmt" where
  "throw e s = (Some e, s)"

definition seq :: "'s stmt \<Rightarrow> 's stmt \<Rightarrow> 's stmt" where
  "seq p q s = (case p s of (None, s') \<Rightarrow> q s' | (Some e, s') \<Rightarrow> (Some e, s'))"

text \<open>
  \<^verbatim>\<open>try { body } catch (err) { handler(err) } finally { fin }\<close>: the handler runs on what
  the body threw, \<open>fin\<close> runs on every path, and what escapes is what \<open>fin\<close> throws, else
  what the handler throws.
\<close>

definition try_catch_finally :: "'s stmt \<Rightarrow> (thrown \<Rightarrow> 's stmt) \<Rightarrow> 's stmt \<Rightarrow> 's stmt" where
  "try_catch_finally body handler fin s =
     (case body s of
        (None, s1) \<Rightarrow> fin s1
      | (Some e, s1) \<Rightarrow>
          (case handler e s1 of
             (None, s2) \<Rightarrow> fin s2
           | (Some e', s2) \<Rightarrow>
               (case fin s2 of
                  (None, s3) \<Rightarrow> (Some e', s3)
                | (Some e'', s3) \<Rightarrow> (Some e'', s3))))"

text \<open>\<^verbatim>\<open>await promise\<close> followed by a continuation on the value: a rejection is thrown.\<close>

definition await :: "thrown + 'a \<Rightarrow> ('a \<Rightarrow> 's stmt) \<Rightarrow> 's stmt" where
  "await p k = (case p of Inl e \<Rightarrow> throw e | Inr v \<Rightarrow> k v)"

fun settle :: "'a fetch_result \<Rightarrow> thrown + 'a response" where
  "settle (Rejected e) = Inl e"
| "settle (Resolved r) = Inr r"

text \<open>\<^verbatim>\<open>fetch(request)\<close>: the request goes out; the promise is the environment's answer.\<close>

definition send :: "request \<Rightarrow> App \<Rightarrow> App" where
  "send r s = s\<lparr>network := network s @ [r]\<rparr>"

section \<open>Module initialisation\<close>

text \<open>
  \<^verbatim>\<open>if (!import.meta.env.VITE_API_BASE) throw new Error(...)\<close>, then
  \<^verbatim>\<open>const API_BASE = `${import.meta.env.VITE_API_BASE}/api/v1`\<close>. An unset variable and the
  empty string are both falsy.
\<close>

definition API_BASE :: "string option \<Rightarrow> thrown + string" where
  "API_BASE VITE_API_BASE =
     (case VITE_API_BASE of
        None \<Rightarrow> Inl (Error ''VITE_API_BASE is not defined in environment variables'')
      | Some b \<Rightarrow>
          if b = [] then Inl (Error ''VITE_API_BASE is not defined in environment variables'')
          else Inr (b @ ''/api/v1''))"

section \<open>Analytics Fetch Coordinator: fetchData\<close>

text \<open>The environment's answers to the five requests of one \<^verbatim>\<open>fetchData\<close> call.\<close>

record analytics =
  summRes :: "Summary fetch_result"
  spendRes :: "(string \<rightharpoonup> real) fetch_result"
  trendRes :: "(string \<rightharpoonup> Trend) fetch_result"
  merchRes :: "Merchant list fetch_result"
  transRes :: "Transaction list fetch_result"

text \<open>
  \<^verbatim>\<open>Promise.all\<close> over the five fetches: it resolves to the five responses when every
  fetch resolves, and rejects as soon as one rejects. The reason is that of the fetch that
  rejects first in time; the model takes the first in request order (the reason only
  reaches \<^verbatim>\<open>console.error\<close>).
\<close>

definition Promise_all ::
  "analytics \<Rightarrow>
   thrown + (Summary response \<times> (string \<rightharpoonup> real) response \<times> (string \<rightharpoonup> Trend) response \<times>
     Merchant list response \<times> Transaction list response)" where
  "Promise_all env =
     (case settle (summRes env) of Inl e \<Rightarrow> Inl e | Inr a \<Rightarrow>
     (case settle (spendRes env) of Inl e \<Rightarrow> Inl e | Inr b \<Rightarrow>
     (case settle (trendRes env) of Inl e \<Rightarrow> Inl e | Inr c \<Rightarrow>
     (case settle (merchRes env) of Inl e \<Rightarrow> Inl e | Inr d \<Rightarrow>
     (case settle (transRes env) of Inl e \<Rightarrow> Inl e | Inr t \<Rightarrow> Inr (a, b, c, d, t))))))"

text \<open>\<^verbatim>\<open>if (res.ok) setX(await res.json())\<close>.\<close>

definition if_ok_set :: "'a response \<Rightarrow> ('a \<Rightarrow> App \<Rightarrow> App) \<Rightarrow> App stmt" where
  "if_ok_set res setX =
     (case res of Ok j \<Rightarrow> await j (\<lambda>v. exec (setX v)) | NotOk _ \<Rightarrow> exec id)"

text \<open>A string is truthy when it is not empty; an absent field is \<^verbatim>\<open>undefined\<close>, falsy.\<close>

fun truthy :: "string option \<Rightarrow> bool" where
  "truthy None = False"
| "truthy (Some s) = (s \<noteq> [])"

text \<open>
  \<^verbatim>\<open>setTransactions(transData); if (transData.length > 0 && transData[0].currency)
  setCurrency(transData[0].currency)\<close>.
\<close>

definition setTransData :: "Transaction list \<Rightarrow> App \<Rightarrow> App" where
  "setTransData transData s =
     (let s' = s\<lparr>transactions := transData\<rparr>
      in case transData of
           [] \<Rightarrow> s'
         | t # _ \<Rightarrow>
             (case Transaction.currency t of
                None \<Rightarrow> s'
              | Some c \<Rightarrow> if c \<noteq> [] then s'\<lparr>currency := c\<rparr> else s'))"

definition analytics_requests :: "string \<Rightarrow> request list" where
  "analytics_requests base =
     [GET (base @ ''/analytics/summary''),
      GET (base @ ''/analytics/spending''),
      GET (base @ ''/analytics/trends''),
      GET (base @ ''/analytics/merchants''),
      GET (base @ ''/analytics/transactions'')]"

definition fetchData_try :: "string \<Rightarrow> analytics \<Rightarrow> App stmt" where
  "fetchData_try base env =
     seq (exec (\<lambda>s. s\<lparr>network := network s @ analytics_requests base\<rparr>))
       (await (Promise_all env) (\<lambda>(summ, spend, trend, merch, trans).
          seq (if_ok_set summ (\<lambda>v s. s\<lparr>summary := v\<rparr>))
         (seq (if_ok_set spend (\<lambda>v s. s\<lparr>spending := v\<rparr>))
         (seq (if_ok_set trend (\<lambda>v s. s\<lparr>trends := v\<rparr>))
         (seq (if_ok_set merch (\<lambda>v s. s\<lparr>merchants := v\<rparr>))
              (if_ok_set trans setTransData))))))"

text \<open>
  \<open>base\<close> is the module constant \<^verbatim>\<open>API_BASE\<close>. The \<^verbatim>\<open>catch\<close> block only logs to the
  console.
\<close>

definition fetchData :: "string \<Rightarrow> analytics \<Rightarrow> App stmt" where
  "fetchData base env =
     seq (exec (\<lambda>s. s\<lparr>isLoadingData := True\<rparr>))
       (try_catch_finally
          (fetchData_try base env)
          (\<lambda>err. exec id)
          (exec (\<lambda>s. s\<lparr>isLoadingData := False\<rparr>)))"

section \<open>Reset Workflow Controller: handleRefresh\<close>

definition handleRefresh :: "string \<Rightarrow> Summary fetch_result \<Rightarrow> App stmt" where
  "handleRefresh base resetRes =
     seq (exec (\<lambda>s. s\<lparr>isLoadingData := True, error := None\<rparr>))
       (try_catch_finally
          (seq (exec (send (POST (base @ ''/analytics/reset'') NoBody)))
             (await (settle resetRes) (\<lambda>res.
                case res of
                  NotOk _ \<Rightarrow> throw (Error ''Failed to reset dashboard data'')
                | Ok j \<Rightarrow>
                    await j (\<lambda>emptySummary.
                      exec (\<lambda>s. s\<lparr>summary := emptySummary, transactions := [], messages := [],
                                   spending := Map.empty, trends := Map.empty,
                                   currency := ''USD''\<rparr>)))))
          (\<lambda>err. case err of
                    Error m \<Rightarrow> exec (\<lambda>s. s\<lparr>error := Some m\<rparr>)
                  | NonError \<Rightarrow> exec id)
          (exec (\<lambda>s. s\<lparr>isLoadingData := False\<rparr>)))"

section \<open>Upload Workflow Controller: handleFileUpload\<close>

text \<open>\<^verbatim>\<open>x || fallback\<close> on an optional string: the fallback replaces a falsy \<open>x\<close>.\<close>

fun or_else :: "string option \<Rightarrow> string \<Rightarrow> string" where
  "or_else None d = d"
| "or_else (Some v) d = (if v \<noteq> [] then v else d)"

text \<open>
  \<^verbatim>\<open>if (data.transactions) { setTransactions(data.transactions);
  if (data.metadata?.currency) setCurrency(data.metadata.currency) } else setTransactions(data)\<close>.
  An array is truthy even when empty, so the test tells the two shapes apart.
\<close>

fun setUploadData :: "upload_data \<Rightarrow> App \<Rightarrow> App" where
  "setUploadData (Structured ts md) s =
     (let s' = s\<lparr>transactions := ts\<rparr>
      in case md of
           None \<Rightarrow> s'
         | Some m \<Rightarrow>
             (case Metadata.currency m of
                None \<Rightarrow> s'
              | Some c \<Rightarrow> if c \<noteq> [] then s'\<lparr>currency := c\<rparr> else s'))"
| "setUploadData (BareArray ts) s = s\<lparr>transactions := ts\<rparr>"

text \<open>
  \<open>file\<close> is \<^verbatim>\<open>event.target.files?.[0]\<close> (its name stands for the file), \<open>uploadRes\<close> the
  answer to the upload request and \<open>env\<close> the answers to the refresh that follows.
\<close>

definition handleFileUpload ::
  "string \<Rightarrow> string option \<Rightarrow> upload_data fetch_result \<Rightarrow> analytics \<Rightarrow> App stmt" where
  "handleFileUpload base file uploadRes env =
     (case file of
        None \<Rightarrow> exec id
      | Some f \<Rightarrow>
          seq (exec (\<lambda>s. s\<lparr>isUploading := True, error := None\<rparr>))
            (try_catch_finally
               (seq (exec (send (POST (base @ ''/upload'') (FormData f))))
                  (await (settle uploadRes) (\<lambda>response.
                     case response of
                       NotOk j \<Rightarrow>
                         await j (\<lambda>errData.
                           throw (Error (or_else (detail errData) ''Upload failed'')))
                     | Ok j \<Rightarrow>
                         await j (\<lambda>data.
                           seq (exec (setUploadData data)) (fetchData base env)))))
               (\<lambda>err. case err of
                         Error m \<Rightarrow> exec (\<lambda>s. s\<lparr>error := Some m\<rparr>)
                       | NonError \<Rightarrow>
                           exec (\<lambda>s. s\<lparr>error :=
                             Some ''An unexpected error occurred during upload.''\<rparr>))
               (exec (\<lambda>s. s\<lparr>isUploading := False,
                              fileInput := map_option (\<lambda>_. []) (fileInput s)\<rparr>))))"

section \<open>Conversational Session Controller: sendMessage\<close>

text \<open>
  \<^verbatim>\<open>ChatInterface\<close> owns \<open>input\<close> and \<open>isLoading\<close>; \<open>messages\<close> and \<open>setMessages\<close> are the
  App's, passed as props.
\<close>

record Chat =
  app :: App
  input :: string
  isLoading :: bool

definition setMessages :: "(Message list \<Rightarrow> Message list) \<Rightarrow> Chat \<Rightarrow> Chat" where
  "setMessages f s = s\<lparr>app := (app s)\<lparr>messages := f (messages (app s))\<rparr>\<rparr>"

text \<open>\<^verbatim>\<open>String.prototype.trim\<close> on ASCII: white space goes from both ends.\<close>

definition is_space :: "char \<Rightarrow> bool" where
  "is_space c = (c \<in> set [CHR '' '', CHR 0x09, CHR 0x0A, CHR 0x0B, CHR 0x0C, CHR 0x0D])"

definition trim :: "string \<Rightarrow> string" where
  "trim s = rev (dropWhile is_space (rev (dropWhile is_space s)))"

definition fallback :: string where
  "fallback =
     ''I'' @ [CHR 0x27] @ ''m sorry, I'' @ [CHR 0x27] @
     ''m having trouble connecting to the financial agent right now.''"

text \<open>The history sent is the \<open>messages\<close> of the render that created the handler.\<close>

definition chat_request :: "string \<Rightarrow> Message list \<Rightarrow> request" where
  "chat_request userMessage history =
     POST ''http://localhost:8000/api/v1/chat/''
       (ChatBody userMessage
          (map (\<lambda>m. (if role m = bot then ''assistant'' else ''user'', content m)) history)
          ''FINANCIAL_AI_PAGE'')"

definition sendMessage :: "string fetch_result \<Rightarrow> Chat stmt" where
  "sendMessage chatRes s0 =
     (if trim (input s0) = [] \<or> isLoading s0 then (None, s0)
      else
        let userMessage = trim (input s0); history = messages (app s0)
        in seq (exec (\<lambda>s. (setMessages (\<lambda>prev. prev @ [\<lparr>role = user, content = userMessage\<rparr>])
                              (s\<lparr>input := []\<rparr>))\<lparr>isLoading := True\<rparr>))
             (try_catch_finally
                (seq (exec (\<lambda>s. s\<lparr>app := send (chat_request userMessage history) (app s)\<rparr>))
                   (await (settle chatRes) (\<lambda>response.
                      case response of
                        NotOk _ \<Rightarrow> throw (Error ''Agent failed to respond.'')
                      | Ok j \<Rightarrow>
                          await j (\<lambda>data.
                            exec (setMessages (\<lambda>prev. prev @ [\<lparr>role = bot, content = data\<rparr>]))))))
                (\<lambda>_. exec (setMessages (\<lambda>prev. prev @ [\<lparr>role = bot, content = fallback\<rparr>])))
                (exec (\<lambda>s. s\<lparr>isLoading := False\<rparr>))) s0)"

text \<open>The request of \<^verbatim>\<open>SnapshotCard\<close>'s \<^verbatim>\<open>fetchSnapshot\<close>, for comparison.\<close>

definition snapshot_request :: "string \<Rightarrow> request" where
  "snapshot_request base =
     POST (base @ ''/chat'') (ChatBody ''Get snapshot'' [] ''TRANSACTIONS_PAGE'')"

section \<open>Transaction Query Engine: TransactionTable\<close>

datatype filter_type = all | credit | debit

datatype sort_order = asc | desc

fun filter_string :: "filter_type \<Rightarrow> string" where
  "filter_string all = ''all''"
| "filter_string credit = ''credit''"
| "filter_string debit = ''debit''"

text \<open>\<^verbatim>\<open>String.prototype.toLowerCase\<close> on ASCII: the letters A to Z move to a to z.\<close>

definition lower_char :: "char \<Rightarrow> char" where
  "lower_char c =
     (case map_of (zip ''ABCDEFGHIJKLMNOPQRSTUVWXYZ'' ''abcdefghijklmnopqrstuvwxyz'') c of
        Some l \<Rightarrow> l
      | None \<Rightarrow> c)"

definition toLowerCase :: "string \<Rightarrow> string" where
  "toLowerCase s = map lower_char s"

text \<open>\<^verbatim>\<open>haystack.includes(needle)\<close>: the needle starts at some position of the haystack.\<close>

fun str_includes :: "string \<Rightarrow> string \<Rightarrow> bool" where
  "str_includes [] needle = (needle = [])"
| "str_includes (c # cs) needle = (prefix needle (c # cs) \<or> str_includes cs needle)"

text \<open>
  \<^verbatim>\<open>t.description.toLowerCase().includes(search.toLowerCase()) ||
  (t.category?.toLowerCase() || '').includes(search.toLowerCase())\<close>: an absent category
  counts as the empty string.
\<close>

definition matchesSearch :: "string \<Rightarrow> Transaction \<Rightarrow> bool" where
  "matchesSearch search t =
     (str_includes (toLowerCase (description t)) (toLowerCase search) \<or>
      str_includes (case category t of None \<Rightarrow> [] | Some c \<Rightarrow> toLowerCase c)
        (toLowerCase search))"

definition matchesType :: "filter_type \<Rightarrow> Transaction \<Rightarrow> bool" where
  "matchesType filterType t = (filterType = all \<or> type t = filter_string filterType)"

text \<open>
  The comparator of the sort. \<open>getTime\<close> stands for \<^verbatim>\<open>new Date(d).getTime()\<close>, the
  runtime's date parser: \<open>None\<close> is \<^verbatim>\<open>NaN\<close> (an invalid date), and a difference with
  \<^verbatim>\<open>NaN\<close> is \<^verbatim>\<open>NaN\<close>.
\<close>

definition compareFn ::
  "(string \<Rightarrow> int option) \<Rightarrow> sort_order \<Rightarrow> Transaction \<Rightarrow> Transaction \<Rightarrow> int option" where
  "compareFn getTime sortOrder a b =
     (case (getTime (date a), getTime (date b)) of
        (Some dateA, Some dateB) \<Rightarrow>
          Some (if sortOrder = desc then dateB - dateA else dateA - dateB)
      | _ \<Rightarrow> None)"

text \<open>
  \<^verbatim>\<open>Array.prototype.sort(comparefn)\<close>: the sort is stable and reads a \<^verbatim>\<open>NaN\<close> from the
  comparator as 0. For a comparator that is a consistent ordering every stable sort gives
  the same array, here built by insertion; with invalid dates the comparator is not
  consistent and the language leaves the order to the implementation.
\<close>

definition SortCompare :: "('a \<Rightarrow> 'a \<Rightarrow> int option) \<Rightarrow> 'a \<Rightarrow> 'a \<Rightarrow> int" where
  "SortCompare comparefn x y = (case comparefn x y of None \<Rightarrow> 0 | Some v \<Rightarrow> v)"

fun insert_sorted :: "('a \<Rightarrow> 'a \<Rightarrow> int option) \<Rightarrow> 'a \<Rightarrow> 'a list \<Rightarrow> 'a list" where
  "insert_sorted comparefn x [] = [x]"
| "insert_sorted comparefn x (y # ys) =
     (if SortCompare comparefn x y \<le> 0 then x # y # ys
      else y # insert_sorted comparefn x ys)"

definition array_sort :: "('a \<Rightarrow> 'a \<Rightarrow> int option) \<Rightarrow> 'a list \<Rightarrow> 'a list" where
  "array_sort comparefn xs = foldr (insert_sorted comparefn) xs []"

definition filteredTransactions ::
  "(string \<Rightarrow> int option) \<Rightarrow> Transaction list \<Rightarrow> string \<Rightarrow> filter_type \<Rightarrow> sort_order \<Rightarrow>
   Transaction list" where
  "filteredTransactions getTime txs search filterType sortOrder =
     array_sort (compareFn getTime sortOrder)
       (filter (\<lambda>t. matchesSearch search t \<and> matchesType filterType t) txs)"

text \<open>
  \<^verbatim>\<open>Array.prototype.slice(start, end)\<close> on integers: a negative index counts from the end,
  both are clamped to the array, and an empty range gives the empty array.
\<close>

definition slice :: "'a list \<Rightarrow> int \<Rightarrow> int \<Rightarrow> 'a list" where
  "slice xs start stop =
     (let len = int (length xs);
          k = (if start < 0 then max (len + start) 0 else min start len);
          final = (if stop < 0 then max (len + stop) 0 else min stop len)
      in take (nat (final - k)) (drop (nat k) xs))"

text \<open>
  The props \<^verbatim>\<open>limit?: number\<close> and \<^verbatim>\<open>pageSize?: number\<close> are optional integers;
  \<^verbatim>\<open>if (limit)\<close> holds for a number that is present and not 0.
\<close>

fun configured :: "int option \<Rightarrow> bool" where
  "configured None = False"
| "configured (Some n) = (n \<noteq> 0)"

definition paginatedTransactions :: "'a list \<Rightarrow> int option \<Rightarrow> int option \<Rightarrow> int \<Rightarrow> 'a list" where
  "paginatedTransactions filtered limit pageSize currentPage =
     (if configured limit then slice filtered 0 (the limit)
      else if configured pageSize then
        (let start = (currentPage - 1) * the pageSize
         in slice filtered start (start + the pageSize))
      else filtered)"

text \<open>\<^verbatim>\<open>pageSize ? Math.ceil(filteredTransactions.length / pageSize) : 1\<close>.\<close>

definition totalPages :: "'a list \<Rightarrow> int option \<Rightarrow> int" where
  "totalPages filtered pageSize =
     (if configured pageSize then \<lceil>real (length filtered) / real_of_int (the pageSize)\<rceil> else 1)"

definition handleNextPage :: "'a list \<Rightarrow> int option \<Rightarrow> int \<Rightarrow> int" where
  "handleNextPage filtered pageSize currentPage =
     (if currentPage < totalPages filtered pageSize then currentPage + 1 else currentPage)"

definition handlePrevPage :: "int \<Rightarrow> int" where
  "handlePrevPage currentPage = (if currentPage > 1 then currentPage - 1 else currentPage)"

section \<open>Notions used to state the properties\<close>

subsection \<open>Outcomes of a request\<close>

text \<open>
  A request delivers a value when its fetch resolves with a 2xx response whose body
  decodes. It is answered when the fetch resolves and, if the response is 2xx, decodes:
  the request may still have failed with a non-2xx status. It is rejected when the fetch
  fails at transport level.
\<close>

definition delivered :: "'a fetch_result \<Rightarrow> 'a option" where
  "delivered r = (case r of Resolved (Ok (Inr v)) \<Rightarrow> Some v | _ \<Rightarrow> None)"

definition answered :: "'a fetch_result \<Rightarrow> bool" where
  "answered r =
     (case r of Rejected _ \<Rightarrow> False | Resolved (Ok (Inl _)) \<Rightarrow> False | _ \<Rightarrow> True)"

definition rejected :: "'a fetch_result \<Rightarrow> bool" where
  "rejected r = (case r of Rejected _ \<Rightarrow> True | _ \<Rightarrow> False)"

text \<open>Each analytics slice of \<open>s'\<close> is the one of \<open>s\<close> or the value its own request delivered.\<close>

definition kept_or_own :: "analytics \<Rightarrow> App \<Rightarrow> App \<Rightarrow> bool" where
  "kept_or_own env s s' =
     ((summary s' = summary s \<or> delivered (summRes env) = Some (summary s')) \<and>
      (spending s' = spending s \<or> delivered (spendRes env) = Some (spending s')) \<and>
      (trends s' = trends s \<or> delivered (trendRes env) = Some (trends s')) \<and>
      (merchants s' = merchants s \<or> delivered (merchRes env) = Some (merchants s')) \<and>
      (transactions s' = transactions s \<or> delivered (transRes env) = Some (transactions s')))"

text \<open>Proof devices: the effect of one answered response, and invariants of statements.\<close>

definition put :: "'a fetch_result \<Rightarrow> ('a \<Rightarrow> App \<Rightarrow> App) \<Rightarrow> App \<Rightarrow> App" where
  "put r upd s = (case delivered r of Some v \<Rightarrow> upd v s | None \<Rightarrow> s)"

definition preserves :: "('s \<Rightarrow> bool) \<Rightarrow> 's stmt \<Rightarrow> bool" where
  "preserves I p = (\<forall>s. I s \<longrightarrow> I (snd (p s)))"

subsection \<open>Sample data\<close>

text \<open>The state of \<^verbatim>\<open>App\<close> at its first render, from the \<^verbatim>\<open>useState\<close> defaults.\<close>

definition initial :: App where
  "initial =
     \<lparr>isUploading = False, isLoadingData = True, error = None, fileInput = Some [],
      transactions = [], messages = [], currency = ''USD'',
      summary = \<lparr>total_income = 0, total_expense = 0, net_balance = 0, transaction_count = 0\<rparr>,
      spending = Map.empty, trends = Map.empty, merchants = [], network = []\<rparr>"

definition tx_coffee :: Transaction where
  "tx_coffee = \<lparr>date = ''2024-03-02'', description = ''Coffee Shop'', amount = 4,
     type = ''debit'', category = Some ''Food'', currency = Some ''EUR''\<rparr>"

definition tx_salary :: Transaction where
  "tx_salary = \<lparr>date = ''2024-03-01'', description = ''ACME Payroll'', amount = 2500,
     type = ''credit'', category = Some ''Income'', currency = None\<rparr>"

definition tx_rent :: Transaction where
  "tx_rent = \<lparr>date = ''2024-03-05'', description = ''Rent'', amount = 900,
     type = ''debit'', category = None, currency = None\<rparr>"

definition summary1 :: Summary where
  "summary1 =
     \<lparr>total_income = 2500, total_expense = 4, net_balance = 2496, transaction_count = 2\<rparr>"

definition loaded :: App where
  "loaded = initial\<lparr>isLoadingData := False, transactions := [tx_salary], currency := ''GBP'',
     merchants := [\<lparr>name = ''ACME'', value = 1\<rparr>],
     messages := [\<lparr>role = user, content = ''hi''\<rparr>]\<rparr>"

text \<open>A refresh in which the merchants endpoint answers 500 and the other four succeed.\<close>

definition env_merchants_500 :: analytics where
  "env_merchants_500 =
     \<lparr>summRes = Resolved (Ok (Inr summary1)),
      spendRes = Resolved (Ok (Inr [''Food'' \<mapsto> 4])),
      trendRes = Resolved (Ok (Inr Map.empty)),
      merchRes = Resolved (NotOk (Inr \<lparr>detail = Some ''boom'', message = None\<rparr>)),
      transRes = Resolved (Ok (Inr [tx_coffee, tx_salary]))\<rparr>"

text \<open>The same refresh with the merchants request failing at transport level.\<close>

definition env_merchants_down :: analytics where
  "env_merchants_down = env_merchants_500\<lparr>merchRes := Rejected (Error ''Failed to fetch'')\<rparr>"

subsection \<open>Failures of the reset request\<close>

text \<open>\<^verbatim>\<open>err instanceof Error ? err.message\<close>: the message a thrown value carries, if any.\<close>

definition thrown_message :: "thrown \<Rightarrow> string option" where
  "thrown_message e = (case e of Error m \<Rightarrow> Some m | NonError \<Rightarrow> None)"

text \<open>
  What a failed reset throws: the rejection of the fetch, the error raised on a non-2xx
  answer, or the rejection of \<^verbatim>\<open>res.json()\<close>.
\<close>

definition reset_failure :: "Summary fetch_result \<Rightarrow> thrown option" where
  "reset_failure r =
     (case r of
        Rejected e \<Rightarrow> Some e
      | Resolved (NotOk _) \<Rightarrow> Some (Error ''Failed to reset dashboard data'')
      | Resolved (Ok (Inl e)) \<Rightarrow> Some e
      | Resolved (Ok (Inr _)) \<Rightarrow> None)"

subsection \<open>Upload: the steps around the response, and its failures\<close>

text \<open>
  The state when the upload request has gone out, and the \<^verbatim>\<open>finally\<close> block of
  \<^verbatim>\<open>handleFileUpload\<close>.
\<close>

definition upload_begin :: "string \<Rightarrow> string \<Rightarrow> App \<Rightarrow> App" where
  "upload_begin base f s =
     s\<lparr>isUploading := True, error := None,
       network := network s @ [POST (base @ ''/upload'') (FormData f)]\<rparr>"

definition upload_finally :: "App \<Rightarrow> App" where
  "upload_finally s =
     s\<lparr>isUploading := False, fileInput := map_option (\<lambda>_. []) (fileInput s)\<rparr>"

text \<open>
  What a failed upload throws: the rejection of the fetch, the rejection of
  \<^verbatim>\<open>response.json()\<close>, or the error built from the body of a non-2xx answer.
\<close>

definition upload_failure :: "upload_data fetch_result \<Rightarrow> thrown option" where
  "upload_failure r =
     (case r of
        Rejected e \<Rightarrow> Some e
      | Resolved (NotOk (Inl e)) \<Rightarrow> Some e
      | Resolved (NotOk (Inr errData)) \<Rightarrow>
          Some (Error (or_else (detail errData) ''Upload failed''))
      | Resolved (Ok (Inl e)) \<Rightarrow> Some e
      | Resolved (Ok (Inr _)) \<Rightarrow> None)"

subsection \<open>Sources of a currency\<close>

text \<open>The currency tag of the first element of a list, when there is one and it is truthy.\<close>

definition first_currency :: "Transaction list \<Rightarrow> string option" where
  "first_currency ts =
     (case ts of
        [] \<Rightarrow> None
      | t # _ \<Rightarrow> (if truthy (Transaction.currency t) then Transaction.currency t else None))"

text \<open>The \<^verbatim>\<open>metadata.currency\<close> of an upload body, when present and truthy.\<close>

definition metadata_currency :: "upload_data \<Rightarrow> string option" where
  "metadata_currency data =
     (case data of
        Structured _ (Some m) \<Rightarrow>
          (if truthy (Metadata.currency m) then Metadata.currency m else None)
      | _ \<Rightarrow> None)"

text \<open>A chat panel over the sample state, with a question typed in.\<close>

definition chat0 :: Chat where
  "chat0 = \<lparr>app = loaded, input = ''  Summarize my spending '', isLoading = False\<rparr>"

subsection \<open>Matching and ordering transactions\<close>

text \<open>
  \<open>h\<close> contains \<open>n\<close> as a case-insensitive substring: some stretch of \<open>h\<close> equals \<open>n\<close> up
  to the case of its letters.
\<close>

definition contains_ci :: "string \<Rightarrow> string \<Rightarrow> bool" where
  "contains_ci h n = (\<exists>pre mid suf. h = pre @ mid @ suf \<and> toLowerCase mid = toLowerCase n)"

text \<open>
  A transaction matches search text \<open>s\<close> and type filter \<open>f\<close>: its description or its
  category contains \<open>s\<close>, and its type is the one \<open>f\<close> names, \<open>all\<close> naming every type.
\<close>

definition matches :: "string \<Rightarrow> filter_type \<Rightarrow> Transaction \<Rightarrow> bool" where
  "matches s f t =
     ((contains_ci (description t) s \<or> (\<exists>c. category t = Some c \<and> contains_ci c s)) \<and>
      (f = all \<or> f = credit \<and> type t = ''credit'' \<or> f = debit \<and> type t = ''debit''))"

text \<open>The key the comparator orders by, for transactions whose dates parse.\<close>

definition sort_key_of :: "(string \<Rightarrow> int option) \<Rightarrow> sort_order \<Rightarrow> Transaction \<Rightarrow> int" where
  "sort_key_of getTime sortOrder t =
     (if sortOrder = desc then - the (getTime (date t)) else the (getTime (date t)))"

text \<open>The timestamps of the dates of the sample transactions; any other string is invalid.\<close>

definition sample_getTime :: "string \<Rightarrow> int option" where
  "sample_getTime d =
     (if d = ''2024-03-01'' then Some 1709251200000
      else if d = ''2024-03-02'' then Some 1709337600000
      else if d = ''2024-03-05'' then Some 1709596800000
      else None)"

section \<open>Properties\<close>

subsection \<open>Statements\<close>

lemma seq_exec [simp]: "seq (exec f) q s = q (f s)"
  by (simp add: seq_def exec_def)

lemma await_Inl [simp]: "await (Inl e) k = throw e"
  by (simp add: await_def)

lemma await_Inr [simp]: "await (Inr v) k = k v"
  by (simp add: await_def)

lemma seq_None: "p s = (None, s1) \<Longrightarrow> seq p q s = q s1"
  by (simp add: seq_def)

lemma try_exec_handler:
  "try_catch_finally body (\<lambda>e. exec (h e)) (exec f) s =
     (case body s of (None, s1) \<Rightarrow> (None, f s1) | (Some e, s1) \<Rightarrow> (None, f (h e s1)))"
  by (simp add: try_catch_finally_def exec_def split: prod.splits option.splits)

lemma settle_Inr_iff [simp]: "settle r = Inr a \<longleftrightarrow> r = Resolved a"
  by (cases r) auto

lemma preserves_seq: "preserves I p \<Longrightarrow> preserves I q \<Longrightarrow> preserves I (seq p q)"
  by (auto simp: preserves_def seq_def split: prod.splits option.splits)

subsection \<open>fetchData\<close>

lemma if_ok_set_cases:
  "if_ok_set res setX s =
     (case res of
        Ok (Inr v) \<Rightarrow> (None, setX v s)
      | Ok (Inl e) \<Rightarrow> (Some e, s)
      | NotOk _ \<Rightarrow> (None, s))"
  by (simp add: if_ok_set_def exec_def throw_def split: response.splits sum.splits)

lemma preserves_if_ok_set:
  "(\<And>v s. res = Ok (Inr v) \<Longrightarrow> I s \<Longrightarrow> I (upd v s)) \<Longrightarrow> preserves I (if_ok_set res upd)"
  by (auto simp: preserves_def if_ok_set_cases split: response.splits sum.splits)

lemma put_frame: "(\<And>v s. f (upd v s) = f s) \<Longrightarrow> f (put r upd s) = f s"
  by (simp add: put_def split: option.splits)

lemma put_own:
  "(\<And>v s. f (upd v s) = v) \<Longrightarrow>
   f (put r upd s) = (case delivered r of Some v \<Rightarrow> v | None \<Rightarrow> f s)"
  by (simp add: put_def split: option.splits)

lemma if_ok_set_answered:
  "answered (Resolved a) \<Longrightarrow> if_ok_set a upd s = (None, put (Resolved a) upd s)"
  by (auto simp: if_ok_set_cases answered_def put_def delivered_def
      split: response.splits sum.splits)

lemma chain_answered:
  assumes "answered (Resolved a)" "answered (Resolved b)" "answered (Resolved c)"
    "answered (Resolved d)" "answered (Resolved t)"
  shows "(seq (if_ok_set a ua) (seq (if_ok_set b ub) (seq (if_ok_set c uc)
            (seq (if_ok_set d ud) (if_ok_set t ut))))) s =
         (None, put (Resolved t) ut (put (Resolved d) ud (put (Resolved c) uc
            (put (Resolved b) ub (put (Resolved a) ua s)))))"
  using assms by (simp add: seq_None if_ok_set_answered)

lemma Promise_all_Inl_iff:
  "(\<exists>e. Promise_all env = Inl e) \<longleftrightarrow>
     rejected (summRes env) \<or> rejected (spendRes env) \<or> rejected (trendRes env) \<or>
     rejected (merchRes env) \<or> rejected (transRes env)"
  by (auto simp: Promise_all_def rejected_def split: sum.splits fetch_result.splits)

lemma Promise_all_Inr:
  "Promise_all env = Inr (a, b, c, d, t) \<longleftrightarrow>
     summRes env = Resolved a \<and> spendRes env = Resolved b \<and> trendRes env = Resolved c \<and>
     merchRes env = Resolved d \<and> transRes env = Resolved t"
  by (auto simp: Promise_all_def split: sum.splits fetch_result.splits)

lemma Promise_all_cases:
  obtains (rej) e where "Promise_all env = Inl e"
    "rejected (summRes env) \<or> rejected (spendRes env) \<or> rejected (trendRes env) \<or>
     rejected (merchRes env) \<or> rejected (transRes env)"
  | (res) a b c d t where "Promise_all env = Inr (a, b, c, d, t)"
      "summRes env = Resolved a" "spendRes env = Resolved b" "trendRes env = Resolved c"
      "merchRes env = Resolved d" "transRes env = Resolved t"
proof (cases "Promise_all env")
  case (Inl e)
  then show ?thesis using rej Promise_all_Inl_iff[of env] by blast
next
  case (Inr p)
  obtain a b c d t where "p = (a, b, c, d, t)" by (cases p) auto
  then show ?thesis using Inr res Promise_all_Inr[of env a b c d t] by blast
qed

lemma fetchData_no_escape: "fst (fetchData base env s) = None"
  by (simp add: fetchData_def try_exec_handler[where h="\<lambda>_. id", simplified]
      split: prod.splits option.splits)

text \<open>When one of the five fetches rejects, the refresh changes no slice at all.\<close>

lemma fetchData_rejected:
  assumes "Promise_all env = Inl e"
  shows "snd (fetchData base env s) =
    s\<lparr>isLoadingData := False, network := network s @ analytics_requests base\<rparr>"
  using assms
  by (simp add: fetchData_def fetchData_try_def
      try_exec_handler[where h="\<lambda>_. id", simplified] throw_def)

lemma fetchData_resolved:
  assumes "Promise_all env = Inr (a, b, c, d, t)"
  shows "snd (fetchData base env s) =
    (snd ((seq (if_ok_set a (\<lambda>v s. s\<lparr>summary := v\<rparr>))
         (seq (if_ok_set b (\<lambda>v s. s\<lparr>spending := v\<rparr>))
         (seq (if_ok_set c (\<lambda>v s. s\<lparr>trends := v\<rparr>))
         (seq (if_ok_set d (\<lambda>v s. s\<lparr>merchants := v\<rparr>))
              (if_ok_set t setTransData)))))
       (s\<lparr>isLoadingData := True, network := network s @ analytics_requests base\<rparr>)))
      \<lparr>isLoadingData := False\<rparr>"
  using assms
  by (simp add: fetchData_def fetchData_try_def
      try_exec_handler[where h="\<lambda>_. id", simplified] split: prod.splits option.splits)

lemma transactions_setTransData [simp]: "transactions (setTransData ts s) = ts"
  by (simp add: setTransData_def Let_def split: list.splits option.splits)

lemma summary_setTransData [simp]: "summary (setTransData ts s) = summary s"
  by (simp add: setTransData_def Let_def split: list.splits option.splits)

lemma spending_setTransData [simp]: "spending (setTransData ts s) = spending s"
  by (simp add: setTransData_def Let_def split: list.splits option.splits)

lemma trends_setTransData [simp]: "trends (setTransData ts s) = trends s"
  by (simp add: setTransData_def Let_def split: list.splits option.splits)

lemma merchants_setTransData [simp]: "merchants (setTransData ts s) = merchants s"
  by (simp add: setTransData_def Let_def split: list.splits option.splits)

lemma fetchData_kept_or_own: "kept_or_own env s (snd (fetchData base env s))"
proof (cases env rule: Promise_all_cases)
  case (rej e)
  then show ?thesis by (simp add: fetchData_rejected kept_or_own_def)
next
  case (res a b c d t)
  let ?s1 = "s\<lparr>isLoadingData := True, network := network s @ analytics_requests base\<rparr>"
  let ?chain = "seq (if_ok_set a (\<lambda>v s. s\<lparr>summary := v\<rparr>))
         (seq (if_ok_set b (\<lambda>v s. s\<lparr>spending := v\<rparr>))
         (seq (if_ok_set c (\<lambda>v s. s\<lparr>trends := v\<rparr>))
         (seq (if_ok_set d (\<lambda>v s. s\<lparr>merchants := v\<rparr>))
              (if_ok_set t setTransData))))"
  have "preserves (kept_or_own env s) ?chain"
    by (intro preserves_seq preserves_if_ok_set)
       (simp_all add: kept_or_own_def delivered_def res)
  moreover have "kept_or_own env s ?s1"
    by (simp add: kept_or_own_def)
  ultimately have "kept_or_own env s (snd (?chain ?s1))"
    by (simp add: preserves_def)
  then show ?thesis
    using res by (simp add: fetchData_resolved kept_or_own_def)
qed

lemma fetchData_run_answered:
  assumes "answered (summRes env)" "answered (spendRes env)" "answered (trendRes env)"
    "answered (merchRes env)" "answered (transRes env)"
  shows "snd (fetchData base env s) =
      (put (transRes env) setTransData (put (merchRes env) (\<lambda>v s. s\<lparr>merchants := v\<rparr>)
        (put (trendRes env) (\<lambda>v s. s\<lparr>trends := v\<rparr>)
          (put (spendRes env) (\<lambda>v s. s\<lparr>spending := v\<rparr>)
            (put (summRes env) (\<lambda>v s. s\<lparr>summary := v\<rparr>)
              (s\<lparr>isLoadingData := True,
                  network := network s @ analytics_requests base\<rparr>))))))
       \<lparr>isLoadingData := False\<rparr>"
proof (cases env rule: Promise_all_cases)
  case (rej e)
  then show ?thesis
    using assms by (auto simp: rejected_def answered_def split: fetch_result.splits)
next
  case (res a b c d t)
  then show ?thesis
    using assms by (simp add: fetchData_resolved chain_answered)
qed

lemma fetchData_slices_answered:
  assumes "answered (summRes env)" "answered (spendRes env)" "answered (trendRes env)"
    "answered (merchRes env)" "answered (transRes env)"
  shows "summary (snd (fetchData base env s)) =
           (case delivered (summRes env) of Some v \<Rightarrow> v | None \<Rightarrow> summary s)"
    and "spending (snd (fetchData base env s)) =
           (case delivered (spendRes env) of Some v \<Rightarrow> v | None \<Rightarrow> spending s)"
    and "trends (snd (fetchData base env s)) =
           (case delivered (trendRes env) of Some v \<Rightarrow> v | None \<Rightarrow> trends s)"
    and "merchants (snd (fetchData base env s)) =
           (case delivered (merchRes env) of Some v \<Rightarrow> v | None \<Rightarrow> merchants s)"
    and "transactions (snd (fetchData base env s)) =
           (case delivered (transRes env) of Some v \<Rightarrow> v | None \<Rightarrow> transactions s)"
  unfolding fetchData_run_answered[OF assms]
  by (simp_all add: put_frame put_own split: option.splits)

text \<open>
  C1 (as amended). A refresh lets no exception escape, and leaves each of the five slices
  either at its prior value or at the value its own request delivered. When all five
  fetches resolve and every 2xx body decodes, each slice is updated exactly when its own
  request returned 2xx: a non-2xx answer for one view leaves its slice at the prior value
  and every other slice updated from its own response.
\<close>

theorem fetchData_applies_each_response:
  "fst (fetchData base env s) = None \<and>
   kept_or_own env s (snd (fetchData base env s)) \<and>
   (answered (summRes env) \<and> answered (spendRes env) \<and> answered (trendRes env) \<and>
    answered (merchRes env) \<and> answered (transRes env) \<longrightarrow>
      summary (snd (fetchData base env s)) =
        (case delivered (summRes env) of Some v \<Rightarrow> v | None \<Rightarrow> summary s) \<and>
      spending (snd (fetchData base env s)) =
        (case delivered (spendRes env) of Some v \<Rightarrow> v | None \<Rightarrow> spending s) \<and>
      trends (snd (fetchData base env s)) =
        (case delivered (trendRes env) of Some v \<Rightarrow> v | None \<Rightarrow> trends s) \<and>
      merchants (snd (fetchData base env s)) =
        (case delivered (merchRes env) of Some v \<Rightarrow> v | None \<Rightarrow> merchants s) \<and>
      transactions (snd (fetchData base env s)) =
        (case delivered (transRes env) of Some v \<Rightarrow> v | None \<Rightarrow> transactions s))"
  using fetchData_no_escape[of base env s] fetchData_kept_or_own[of env s base]
    fetchData_slices_answered[of env base s]
  by simp

text \<open>
  The refresh of the sample state in which the merchants endpoint answers 500: the summary
  is the server's, the merchants are the prior ones, nothing escapes.
\<close>

theorem fetchData_applies_each_response_witness:
  "answered (summRes env_merchants_500) \<and> answered (spendRes env_merchants_500) \<and>
   answered (trendRes env_merchants_500) \<and> answered (merchRes env_merchants_500) \<and>
   answered (transRes env_merchants_500) \<and>
   summary (snd (fetchData ''https://api.example/api/v1'' env_merchants_500 loaded)) = summary1 \<and>
   merchants (snd (fetchData ''https://api.example/api/v1'' env_merchants_500 loaded)) =
     merchants loaded \<and>
   transactions (snd (fetchData ''https://api.example/api/v1'' env_merchants_500 loaded)) =
     [tx_coffee, tx_salary] \<and>
   fst (fetchData ''https://api.example/api/v1'' env_merchants_500 loaded) = None"
proof -
  have h: "answered (summRes env_merchants_500) \<and> answered (spendRes env_merchants_500) \<and>
    answered (trendRes env_merchants_500) \<and> answered (merchRes env_merchants_500) \<and>
    answered (transRes env_merchants_500)"
    by (simp add: answered_def env_merchants_500_def)
  show ?thesis
    using h fetchData_applies_each_response
      [of "''https://api.example/api/v1''" env_merchants_500 loaded]
    by (simp add: delivered_def env_merchants_500_def)
qed

text \<open>
  C1 as stated fails when a request fails at transport level: with the merchants fetch
  rejected, the summary request delivers a new summary and the summary slice does not
  take it.
\<close>

theorem fetchData_transport_failure_counterexample:
  "delivered (summRes env_merchants_down) = Some summary1 \<and>
   rejected (merchRes env_merchants_down) \<and>
   summary (snd (fetchData ''https://api.example/api/v1'' env_merchants_down loaded)) \<noteq>
     summary1"
  by (simp add: fetchData_rejected[where e="Error ''Failed to fetch''"] Promise_all_def
      env_merchants_down_def env_merchants_500_def delivered_def rejected_def loaded_def
      initial_def summary1_def)

subsection \<open>handleRefresh\<close>

lemma try_catch_finally_exec:
  "try_catch_finally body handler (exec f) s =
     (case body s of
        (None, s1) \<Rightarrow> (None, f s1)
      | (Some e, s1) \<Rightarrow> (case handler e s1 of (x, s2) \<Rightarrow> (x, f s2)))"
  by (simp add: try_catch_finally_def exec_def split: prod.splits option.splits)

lemma handleRefresh_delivered:
  "delivered resetRes = Some v \<Longrightarrow>
   handleRefresh base resetRes s =
     (None, s\<lparr>isLoadingData := False, error := None,
        network := network s @ [POST (base @ ''/analytics/reset'') NoBody],
        summary := v, transactions := [], messages := [], spending := Map.empty,
        trends := Map.empty, currency := ''USD''\<rparr>)"
  by (auto simp: delivered_def handleRefresh_def try_catch_finally_exec send_def exec_def
      split: fetch_result.splits response.splits sum.splits)

lemma handleRefresh_failed:
  "delivered resetRes = None \<Longrightarrow>
   handleRefresh base resetRes s =
     (None, s\<lparr>isLoadingData := False,
        error := (case reset_failure resetRes of Some e \<Rightarrow> thrown_message e | None \<Rightarrow> None),
        network := network s @ [POST (base @ ''/analytics/reset'') NoBody]\<rparr>)"
  by (auto simp: delivered_def handleRefresh_def try_catch_finally_exec send_def exec_def
      throw_def reset_failure_def thrown_message_def
      split: fetch_result.splits response.splits sum.splits thrown.splits)

text \<open>
  C3. From every prior state, a reset whose request delivers the server's summary leaves
  that very summary in place, the transactions and messages empty, the spending and trends
  maps empty and the currency at USD. A reset that fails (rejected fetch, non-2xx answer
  or undecodable body) sets the current error to the message of what the failure threw
  and leaves transactions, messages, summary, spending, trends and currency as they were.
\<close>

theorem handleRefresh_reset:
  "(case delivered resetRes of
      Some emptySummary \<Rightarrow>
        summary (snd (handleRefresh base resetRes s)) = emptySummary \<and>
        transactions (snd (handleRefresh base resetRes s)) = [] \<and>
        messages (snd (handleRefresh base resetRes s)) = [] \<and>
        spending (snd (handleRefresh base resetRes s)) = Map.empty \<and>
        trends (snd (handleRefresh base resetRes s)) = Map.empty \<and>
        currency (snd (handleRefresh base resetRes s)) = ''USD''
    | None \<Rightarrow>
        error (snd (handleRefresh base resetRes s)) =
          (case reset_failure resetRes of Some e \<Rightarrow> thrown_message e | None \<Rightarrow> None) \<and>
        transactions (snd (handleRefresh base resetRes s)) = transactions s \<and>
        messages (snd (handleRefresh base resetRes s)) = messages s \<and>
        summary (snd (handleRefresh base resetRes s)) = summary s \<and>
        spending (snd (handleRefresh base resetRes s)) = spending s \<and>
        trends (snd (handleRefresh base resetRes s)) = trends s \<and>
        currency (snd (handleRefresh base resetRes s)) = currency s)"
  by (simp add: handleRefresh_delivered handleRefresh_failed split: option.splits)

text \<open>
  On the sample state: a successful reset, a reset answered with a non-2xx status, and a
  reset whose fetch is rejected.
\<close>

theorem handleRefresh_reset_witness:
  "summary (snd (handleRefresh ''https://api.example/api/v1''
      (Resolved (Ok (Inr summary1))) loaded)) = summary1 \<and>
   transactions (snd (handleRefresh ''https://api.example/api/v1''
      (Resolved (Ok (Inr summary1))) loaded)) = [] \<and>
   messages (snd (handleRefresh ''https://api.example/api/v1''
      (Resolved (Ok (Inr summary1))) loaded)) = [] \<and>
   currency (snd (handleRefresh ''https://api.example/api/v1''
      (Resolved (Ok (Inr summary1))) loaded)) = ''USD'' \<and>
   error (snd (handleRefresh ''https://api.example/api/v1''
      (Resolved (NotOk (Inr \<lparr>detail = None, message = None\<rparr>))) loaded)) =
     Some ''Failed to reset dashboard data'' \<and>
   error (snd (handleRefresh ''https://api.example/api/v1''
      (Rejected (Error ''Failed to fetch'')) loaded)) = Some ''Failed to fetch'' \<and>
   transactions (snd (handleRefresh ''https://api.example/api/v1''
      (Rejected (Error ''Failed to fetch'')) loaded)) = [tx_salary] \<and>
   currency (snd (handleRefresh ''https://api.example/api/v1''
      (Rejected (Error ''Failed to fetch'')) loaded)) = ''GBP''"
  using
    handleRefresh_reset[where resetRes="Resolved (Ok (Inr summary1))"
      and base="''https://api.example/api/v1''" and s=loaded]
    handleRefresh_reset[where resetRes="Resolved (NotOk (Inr \<lparr>detail = None, message = None\<rparr>))"
      and base="''https://api.example/api/v1''" and s=loaded]
    handleRefresh_reset[where resetRes="Rejected (Error ''Failed to fetch'')"
      and base="''https://api.example/api/v1''" and s=loaded]
  by (simp add: delivered_def reset_failure_def thrown_message_def loaded_def initial_def)

subsection \<open>sendMessage\<close>

lemma sendMessage_failed:
  assumes "trim (input st) \<noteq> []" "\<not> isLoading st" "delivered chatRes = None"
  shows "sendMessage chatRes st =
    (None, st\<lparr>input := [], isLoading := False,
       app := (app st)\<lparr>messages := messages (app st) @
                 [\<lparr>role = user, content = trim (input st)\<rparr>, \<lparr>role = bot, content = fallback\<rparr>],
               network := network (app st) @
                 [chat_request (trim (input st)) (messages (app st))]\<rparr>\<rparr>)"
  using assms
  by (auto simp: sendMessage_def Let_def delivered_def try_catch_finally_exec exec_def
      throw_def setMessages_def send_def
      split: fetch_result.splits response.splits sum.splits)

lemma sendMessage_delivered:
  assumes "trim (input st) \<noteq> []" "\<not> isLoading st" "delivered chatRes = Some data"
  shows "sendMessage chatRes st =
    (None, st\<lparr>input := [], isLoading := False,
       app := (app st)\<lparr>messages := messages (app st) @
                 [\<lparr>role = user, content = trim (input st)\<rparr>, \<lparr>role = bot, content = data\<rparr>],
               network := network (app st) @
                 [chat_request (trim (input st)) (messages (app st))]\<rparr>\<rparr>)"
  using assms
  by (auto simp: sendMessage_def Let_def delivered_def try_catch_finally_exec exec_def
      throw_def setMessages_def send_def
      split: fetch_result.splits response.splits sum.splits)

lemma sendMessage_guard:
  "trim (input st) = [] \<or> isLoading st \<Longrightarrow> sendMessage chatRes st = (None, st)"
  by (simp add: sendMessage_def)

text \<open>
  C6. A chat turn (the input is not blank and no turn is in flight) whose request fails,
  by a rejected fetch, a non-2xx answer or an undecodable body, ends with the history
  extended by exactly two messages: the user's trimmed text, then one bot message holding
  the fixed fallback text.
\<close>

theorem sendMessage_failure_appends_fallback:
  assumes "trim (input st) \<noteq> []" "\<not> isLoading st" "delivered chatRes = None"
  shows "messages (app (snd (sendMessage chatRes st))) =
           messages (app st) @
             [\<lparr>role = user, content = trim (input st)\<rparr>, \<lparr>role = bot, content = fallback\<rparr>] \<and>
         length (messages (app (snd (sendMessage chatRes st)))) =
           length (messages (app st)) + 2 \<and>
         fst (sendMessage chatRes st) = None"
  by (simp add: sendMessage_failed[OF assms])

theorem sendMessage_failure_appends_fallback_witness:
  "trim (input chat0) \<noteq> [] \<and> \<not> isLoading chat0 \<and>
   delivered (Resolved (NotOk (Inr \<lparr>detail = Some ''Internal Server Error'', message = None\<rparr>))
      :: string fetch_result) = None \<and>
   messages (app (snd (sendMessage
      (Resolved (NotOk (Inr \<lparr>detail = Some ''Internal Server Error'', message = None\<rparr>)))
      chat0))) =
     [\<lparr>role = user, content = ''hi''\<rparr>,
      \<lparr>role = user, content = ''Summarize my spending''\<rparr>,
      \<lparr>role = bot, content = fallback\<rparr>]"
proof -
  have h1: "trim (input chat0) \<noteq> []"
    by (simp add: chat0_def trim_def is_space_def)
  have h2: "\<not> isLoading chat0"
    by (simp add: chat0_def)
  have h3: "delivered (Resolved (NotOk (Inr
      \<lparr>detail = Some ''Internal Server Error'', message = None\<rparr>)) :: string fetch_result) = None"
    by (simp add: delivered_def)
  show ?thesis
    using h1 h2 h3 sendMessage_failure_appends_fallback[OF h1 h2 h3]
    by (simp add: chat0_def trim_def is_space_def loaded_def initial_def)
qed

text \<open>
  C9 at a configured base URL: with \<^verbatim>\<open>VITE_API_BASE = https://example.hf.space\<close> the module
  constant is that base plus \<^verbatim>\<open>/api/v1\<close> and the snapshot request is built on it, but the
  request of an interactive chat turn goes to a fixed localhost URL.
\<close>

theorem sendMessage_targets_localhost:
  "API_BASE (Some ''https://example.hf.space'') = Inr ''https://example.hf.space/api/v1'' \<and>
   network (app (snd (sendMessage (Resolved (Ok (Inr ''Hello'')))
      (chat0\<lparr>app := initial\<rparr>)))) =
     [POST ''http://localhost:8000/api/v1/chat/''
        (ChatBody ''Summarize my spending'' [] ''FINANCIAL_AI_PAGE'')] \<and>
   \<not> prefix ''https://example.hf.space/api/v1'' ''http://localhost:8000/api/v1/chat/'' \<and>
   url (snapshot_request ''https://example.hf.space/api/v1'') =
     ''https://example.hf.space/api/v1/chat''"
  by (simp add: API_BASE_def sendMessage_def chat0_def trim_def is_space_def Let_def
      try_catch_finally_exec exec_def setMessages_def send_def chat_request_def initial_def
      snapshot_request_def)

subsection \<open>handleFileUpload\<close>

lemma network_fetchData:
  "network (snd (fetchData base env s)) = network s @ analytics_requests base"
proof (cases env rule: Promise_all_cases)
  case (rej e)
  then show ?thesis by (simp add: fetchData_rejected)
next
  case (res a b c d t)
  let ?I = "\<lambda>s'. network s' = network s @ analytics_requests base"
  have "preserves ?I (seq (if_ok_set a (\<lambda>v s. s\<lparr>summary := v\<rparr>))
         (seq (if_ok_set b (\<lambda>v s. s\<lparr>spending := v\<rparr>))
         (seq (if_ok_set c (\<lambda>v s. s\<lparr>trends := v\<rparr>))
         (seq (if_ok_set d (\<lambda>v s. s\<lparr>merchants := v\<rparr>))
              (if_ok_set t setTransData)))))"
    by (intro preserves_seq preserves_if_ok_set)
       (simp_all add: setTransData_def Let_def split: list.splits option.splits)
  then show ?thesis
    using res by (simp add: fetchData_resolved preserves_def)
qed

lemma handleFileUpload_delivered:
  "delivered uploadRes = Some data \<Longrightarrow>
   handleFileUpload base (Some f) uploadRes env s =
     (None, upload_finally (snd (fetchData base env
        (setUploadData data (upload_begin base f s)))))"
  using fetchData_no_escape[of base env "setUploadData data (upload_begin base f s)"]
  by (auto simp: delivered_def handleFileUpload_def try_catch_finally_exec send_def exec_def
      seq_def upload_begin_def upload_finally_def
      split: fetch_result.splits response.splits sum.splits prod.splits option.splits)

lemma handleFileUpload_failed:
  "delivered uploadRes = None \<Longrightarrow>
   handleFileUpload base (Some f) uploadRes env s =
     (None, upload_finally ((upload_begin base f s)\<lparr>error :=
        (case upload_failure uploadRes of
           Some (Error m) \<Rightarrow> Some m
         | _ \<Rightarrow> Some ''An unexpected error occurred during upload.'')\<rparr>))"
  by (auto simp: delivered_def handleFileUpload_def try_catch_finally_exec send_def exec_def
      throw_def upload_begin_def upload_finally_def upload_failure_def
      split: fetch_result.splits response.splits sum.splits thrown.splits)

text \<open>
  C2. A successful upload whose body is \<^verbatim>\<open>{transactions: ts, metadata: {currency: c}}\<close>,
  with \<open>c\<close> a non-empty code, sets the transaction list to \<open>ts\<close> and the currency to \<open>c\<close>;
  one whose body is the bare array \<open>ts\<close> sets the list to \<open>ts\<close> and leaves the currency
  as it was. In both cases \<^verbatim>\<open>fetchData\<close> then runs from that state, and the requests sent
  are the upload followed by the five analytics requests.
\<close>

theorem handleFileUpload_accepts_both_shapes:
  assumes "c \<noteq> []"
  shows
    "handleFileUpload base (Some f)
        (Resolved (Ok (Inr (Structured ts (Some \<lparr>Metadata.currency = Some c\<rparr>))))) env s =
       (None, upload_finally (snd (fetchData base env
          ((upload_begin base f s)\<lparr>transactions := ts, currency := c\<rparr>)))) \<and>
     handleFileUpload base (Some f) (Resolved (Ok (Inr (BareArray ts)))) env s =
       (None, upload_finally (snd (fetchData base env
          ((upload_begin base f s)\<lparr>transactions := ts\<rparr>)))) \<and>
     network (snd (handleFileUpload base (Some f)
        (Resolved (Ok (Inr (Structured ts (Some \<lparr>Metadata.currency = Some c\<rparr>))))) env s)) =
       network s @ POST (base @ ''/upload'') (FormData f) # analytics_requests base \<and>
     network (snd (handleFileUpload base (Some f) (Resolved (Ok (Inr (BareArray ts)))) env s)) =
       network s @ POST (base @ ''/upload'') (FormData f) # analytics_requests base"
  using assms
  by (simp add: handleFileUpload_delivered delivered_def network_fetchData upload_finally_def
      Let_def)
     (simp add: upload_begin_def)

text \<open>
  An upload of two transactions tagged EUR into the sample state, with the refresh that
  follows failing at transport level, so that the state left is the one the upload set.
\<close>

theorem handleFileUpload_accepts_both_shapes_witness:
  "''EUR'' \<noteq> [] \<and>
   transactions (snd (handleFileUpload ''https://api.example/api/v1'' (Some ''statement.csv'')
      (Resolved (Ok (Inr (Structured [tx_coffee, tx_rent]
         (Some \<lparr>Metadata.currency = Some ''EUR''\<rparr>)))))
      env_merchants_down loaded)) = [tx_coffee, tx_rent] \<and>
   currency (snd (handleFileUpload ''https://api.example/api/v1'' (Some ''statement.csv'')
      (Resolved (Ok (Inr (Structured [tx_coffee, tx_rent]
         (Some \<lparr>Metadata.currency = Some ''EUR''\<rparr>)))))
      env_merchants_down loaded)) = ''EUR'' \<and>
   transactions (snd (handleFileUpload ''https://api.example/api/v1'' (Some ''statement.csv'')
      (Resolved (Ok (Inr (BareArray [tx_rent])))) env_merchants_down loaded)) = [tx_rent] \<and>
   currency (snd (handleFileUpload ''https://api.example/api/v1'' (Some ''statement.csv'')
      (Resolved (Ok (Inr (BareArray [tx_rent])))) env_merchants_down loaded)) = ''GBP'' \<and>
   network (snd (handleFileUpload ''https://api.example/api/v1'' (Some ''statement.csv'')
      (Resolved (Ok (Inr (BareArray [tx_rent])))) env_merchants_down loaded)) =
     [POST ''https://api.example/api/v1/upload'' (FormData ''statement.csv''),
      GET ''https://api.example/api/v1/analytics/summary'',
      GET ''https://api.example/api/v1/analytics/spending'',
      GET ''https://api.example/api/v1/analytics/trends'',
      GET ''https://api.example/api/v1/analytics/merchants'',
      GET ''https://api.example/api/v1/analytics/transactions'']"
proof -
  have h: "''EUR'' \<noteq> []" by simp
  have r: "Promise_all env_merchants_down = Inl (Error ''Failed to fetch'')"
    by (simp add: Promise_all_def env_merchants_down_def env_merchants_500_def)
  show ?thesis
    using handleFileUpload_accepts_both_shapes[OF h, of "''https://api.example/api/v1''"
      "''statement.csv''" "[tx_coffee, tx_rent]" env_merchants_down loaded]
      handleFileUpload_accepts_both_shapes[OF h, of "''https://api.example/api/v1''"
      "''statement.csv''" "[tx_rent]" env_merchants_down loaded]
    by (simp add: fetchData_rejected[OF r] upload_finally_def upload_begin_def
        analytics_requests_def loaded_def initial_def)
qed

text \<open>
  C7 at a non-2xx upload answer whose body carries a \<open>message\<close> and no \<open>detail\<close>: the
  error shown is the generic text, not the body's message. The transaction list is left
  as it was.
\<close>

theorem handleFileUpload_skips_message_field:
  "error (snd (handleFileUpload ''https://api.example/api/v1'' (Some ''statement.csv'')
      (Resolved (NotOk (Inr \<lparr>detail = None, message = Some ''File too large''\<rparr>)))
      env_merchants_500 loaded)) = Some ''Upload failed'' \<and>
   transactions (snd (handleFileUpload ''https://api.example/api/v1'' (Some ''statement.csv'')
      (Resolved (NotOk (Inr \<lparr>detail = None, message = Some ''File too large''\<rparr>)))
      env_merchants_500 loaded)) = transactions loaded"
  by (simp add: handleFileUpload_failed delivered_def upload_failure_def upload_finally_def
      upload_begin_def)

subsection \<open>The displayed currency\<close>

lemma currency_setTransData:
  "currency (setTransData ts s) =
     (case first_currency ts of Some c \<Rightarrow> c | None \<Rightarrow> currency s)"
  by (simp add: setTransData_def first_currency_def Let_def split: list.splits option.splits)

lemma currency_setUploadData:
  "currency (setUploadData data s) =
     (case metadata_currency data of Some c \<Rightarrow> c | None \<Rightarrow> currency s)"
  by (cases data) (simp_all add: metadata_currency_def Let_def split: option.splits)

lemma currency_fetchData:
  "currency (snd (fetchData base env s)) = currency s \<or>
   (\<exists>ts. delivered (transRes env) = Some ts \<and>
      first_currency ts = Some (currency (snd (fetchData base env s))))"
proof (cases env rule: Promise_all_cases)
  case (rej e)
  then show ?thesis by (simp add: fetchData_rejected)
next
  case (res a b c d t)
  let ?I = "\<lambda>s'. currency s' = currency s \<or>
     (\<exists>ts. delivered (transRes env) = Some ts \<and> first_currency ts = Some (currency s'))"
  let ?chain = "seq (if_ok_set a (\<lambda>v s. s\<lparr>summary := v\<rparr>))
         (seq (if_ok_set b (\<lambda>v s. s\<lparr>spending := v\<rparr>))
         (seq (if_ok_set c (\<lambda>v s. s\<lparr>trends := v\<rparr>))
         (seq (if_ok_set d (\<lambda>v s. s\<lparr>merchants := v\<rparr>))
              (if_ok_set t setTransData))))"
  have "preserves ?I ?chain"
    by (intro preserves_seq preserves_if_ok_set)
       (auto simp add: currency_setTransData delivered_def res split: option.splits)
  then have "?I (snd (?chain
      (s\<lparr>isLoadingData := True, network := network s @ analytics_requests base\<rparr>)))"
    by (simp add: preserves_def)
  then show ?thesis
    using res by (simp add: fetchData_resolved)
qed

lemma currency_sendMessage:
  "currency (app (snd (sendMessage chatRes st))) = currency (app st)"
proof (cases "trim (input st) = [] \<or> isLoading st")
  case True
  then show ?thesis by (simp add: sendMessage_guard)
next
  case False
  then show ?thesis
    by (cases "delivered chatRes") (simp_all add: sendMessage_failed sendMessage_delivered)
qed

lemma currency_handleRefresh:
  "currency (snd (handleRefresh base resetRes s)) =
     (case delivered resetRes of Some _ \<Rightarrow> ''USD'' | None \<Rightarrow> currency s)"
  by (simp add: handleRefresh_delivered handleRefresh_failed split: option.splits)

lemma currency_handleFileUpload:
  "currency (snd (handleFileUpload base file uploadRes env s)) = currency s \<or>
   (\<exists>data. delivered uploadRes = Some data \<and>
      metadata_currency data =
        Some (currency (snd (handleFileUpload base file uploadRes env s)))) \<or>
   (\<exists>ts. delivered (transRes env) = Some ts \<and>
      first_currency ts = Some (currency (snd (handleFileUpload base file uploadRes env s))))"
proof (cases "file")
  case None
  then show ?thesis by (simp add: handleFileUpload_def exec_def)
next
  case (Some f)
  show ?thesis
  proof (cases "delivered uploadRes")
    case None
    then show ?thesis
      using Some by (simp add: handleFileUpload_failed upload_finally_def upload_begin_def)
  next
    case (Some data)
    let ?mid = "setUploadData data (upload_begin base f s)"
    have cur: "currency (snd (handleFileUpload base file uploadRes env s)) =
        currency (snd (fetchData base env ?mid))"
      using Some \<open>file = Some f\<close> by (simp add: handleFileUpload_delivered upload_finally_def)
    have mid: "currency ?mid =
        (case metadata_currency data of Some c \<Rightarrow> c | None \<Rightarrow> currency s)"
      by (simp add: currency_setUploadData upload_begin_def split: option.splits)
    show ?thesis
      using currency_fetchData[of base env ?mid] Some
      unfolding cur mid by (auto split: option.splits)
  qed
qed

text \<open>
  C8 (as amended). A refresh changes the currency only to the currency tag of the first
  element of the transaction list it fetched, when that list is not empty and the tag is
  present; a chat turn never changes it. A reset sets it to USD when it succeeds and keeps
  it otherwise. An upload changes it only to the \<^verbatim>\<open>metadata.currency\<close> of its response or,
  through the refresh it triggers, to the tag of the first fetched transaction.
\<close>

theorem currency_changed_only_by:
  "(currency (snd (fetchData base env s)) = currency s \<or>
    (\<exists>ts. delivered (transRes env) = Some ts \<and>
       first_currency ts = Some (currency (snd (fetchData base env s))))) \<and>
   currency (app (snd (sendMessage chatRes st))) = currency (app st) \<and>
   currency (snd (handleRefresh base resetRes s)) =
     (case delivered resetRes of Some _ \<Rightarrow> ''USD'' | None \<Rightarrow> currency s) \<and>
   (currency (snd (handleFileUpload base file uploadRes env s)) = currency s \<or>
    (\<exists>data. delivered uploadRes = Some data \<and>
       metadata_currency data =
         Some (currency (snd (handleFileUpload base file uploadRes env s)))) \<or>
    (\<exists>ts. delivered (transRes env) = Some ts \<and>
       first_currency ts = Some (currency (snd (handleFileUpload base file uploadRes env s)))))"
  using currency_fetchData[of base env s] currency_sendMessage[of chatRes st]
    currency_handleRefresh[of base resetRes s]
    currency_handleFileUpload[of base "file" uploadRes env s]
  by blast

text \<open>
  C8 as stated fails on a reset: no transaction list is fetched, and the currency of the
  sample state changes from GBP to USD.
\<close>

theorem handleRefresh_currency_counterexample:
  "currency loaded = ''GBP'' \<and>
   currency (snd (handleRefresh ''https://api.example/api/v1''
      (Resolved (Ok (Inr summary1))) loaded)) = ''USD'' \<and>
   transactions (snd (handleRefresh ''https://api.example/api/v1''
      (Resolved (Ok (Inr summary1))) loaded)) = []"
  by (simp add: handleRefresh_delivered delivered_def loaded_def)

subsection \<open>filteredTransactions\<close>

lemma str_includes_sublist: "str_includes h n \<longleftrightarrow> sublist n h"
  by (induction h) (simp_all add: sublist_Cons_right)

lemma str_includes_contains_ci:
  "str_includes (toLowerCase h) (toLowerCase n) \<longleftrightarrow> contains_ci h n"
proof
  assume "str_includes (toLowerCase h) (toLowerCase n)"
  then obtain ps ss where "map lower_char h = ps @ map lower_char n @ ss"
    by (auto simp: str_includes_sublist sublist_def toLowerCase_def)
  then have "\<exists>pre rest. h = pre @ rest \<and> ps = map lower_char pre \<and>
      map lower_char n @ ss = map lower_char rest"
    by (simp only: map_eq_append_conv)
  then obtain pre rest where h: "h = pre @ rest"
    and rest: "map lower_char n @ ss = map lower_char rest"
    by blast
  from rest have "\<exists>mid suf. rest = mid @ suf \<and> map lower_char n = map lower_char mid \<and>
      ss = map lower_char suf"
    by (simp only: append_eq_map_conv)
  then obtain mid suf where "rest = mid @ suf" "map lower_char mid = map lower_char n"
    by metis
  with h show "contains_ci h n"
    by (auto simp: contains_ci_def toLowerCase_def)
next
  assume "contains_ci h n"
  then obtain pre mid suf where "h = pre @ mid @ suf" "toLowerCase mid = toLowerCase n"
    by (auto simp: contains_ci_def)
  then have "toLowerCase h = toLowerCase pre @ toLowerCase n @ toLowerCase suf"
    by (simp add: toLowerCase_def)
  then show "str_includes (toLowerCase h) (toLowerCase n)"
    by (auto simp: str_includes_sublist sublist_def)
qed

lemma contains_ci_empty: "contains_ci h []"
  by (auto simp: contains_ci_def toLowerCase_def)

lemma matchesSearch_iff:
  "matchesSearch s t \<longleftrightarrow>
     contains_ci (description t) s \<or> (\<exists>c. category t = Some c \<and> contains_ci c s)"
proof (cases "category t")
  case None
  have "str_includes [] (toLowerCase s) \<longleftrightarrow> s = []"
    by (simp add: toLowerCase_def)
  then show ?thesis
    using None by (auto simp: matchesSearch_def str_includes_contains_ci contains_ci_empty)
next
  case (Some c)
  then show ?thesis
    by (simp add: matchesSearch_def str_includes_contains_ci)
qed

lemma matchesType_iff:
  "matchesType f t \<longleftrightarrow> f = all \<or> f = credit \<and> type t = ''credit'' \<or> f = debit \<and> type t = ''debit''"
  by (cases f) (simp_all add: matchesType_def)

lemma matches_code: "(matchesSearch s t \<and> matchesType f t) = matches s f t"
  by (simp only: matches_def matchesSearch_iff matchesType_iff)

lemma mset_insert_sorted: "mset (insert_sorted c x ys) = add_mset x (mset ys)"
  by (induction ys) simp_all

lemma mset_array_sort: "mset (array_sort c xs) = mset xs"
  by (induction xs) (simp_all add: array_sort_def mset_insert_sorted)

lemma set_array_sort: "set (array_sort c xs) = set xs"
  by (metis mset_array_sort set_mset_mset)

lemma insert_sorted_insort_key:
  assumes "getTime (date x) \<noteq> None" "\<forall>y\<in>set ys. getTime (date y) \<noteq> None"
  shows "insert_sorted (compareFn getTime ord) x ys = insort_key (sort_key_of getTime ord) x ys"
  using assms
  by (induction ys) (auto simp: SortCompare_def compareFn_def sort_key_of_def)

lemma array_sort_sort_key:
  assumes "\<forall>t\<in>set xs. getTime (date t) \<noteq> None"
  shows "array_sort (compareFn getTime ord) xs = sort_key (sort_key_of getTime ord) xs"
  using assms
proof (induction xs)
  case Nil
  then show ?case by (simp add: array_sort_def)
next
  case (Cons x xs)
  then have "array_sort (compareFn getTime ord) xs = sort_key (sort_key_of getTime ord) xs"
    by simp
  moreover have "\<forall>y\<in>set (sort_key (sort_key_of getTime ord) xs). getTime (date y) \<noteq> None"
    using Cons.prems by simp
  ultimately show ?case
    using Cons.prems by (simp add: array_sort_def insert_sorted_insort_key)
qed

lemma filteredTransactions_idem:
  assumes "\<forall>t\<in>set L. getTime (date t) \<noteq> None"
  shows "filteredTransactions getTime (filteredTransactions getTime L s f ord) s f ord =
         filteredTransactions getTime L s f ord"
proof -
  let ?P = "\<lambda>t. matchesSearch s t \<and> matchesType f t"
  let ?k = "sort_key_of getTime ord"
  have v: "\<forall>t\<in>set (filter ?P L). getTime (date t) \<noteq> None"
    using assms by simp
  have F: "filteredTransactions getTime L s f ord = sort_key ?k (filter ?P L)"
    by (simp add: filteredTransactions_def array_sort_sort_key[OF v])
  have "filter ?P (sort_key ?k (filter ?P L)) = sort_key ?k (filter ?P L)"
    by (simp add: filter_sort)
  moreover have "\<forall>t\<in>set (sort_key ?k (filter ?P L)). getTime (date t) \<noteq> None"
    using v by simp
  ultimately have "filteredTransactions getTime (sort_key ?k (filter ?P L)) s f ord =
      sort_key ?k (sort_key ?k (filter ?P L))"
    by (simp add: filteredTransactions_def array_sort_sort_key)
  also have "\<dots> = sort_key ?k (filter ?P L)"
    by (simp add: sort_key_id_if_sorted)
  finally show ?thesis
    by (simp only: F)
qed

lemma mset_filteredTransactions:
  "mset (filteredTransactions getTime L s f ord) = filter_mset (matches s f) (mset L)"
proof -
  have "(\<lambda>t. matchesSearch s t \<and> matchesType f t) = matches s f"
    by (rule ext) (rule matches_code)
  then show ?thesis
    by (simp add: filteredTransactions_def mset_array_sort)
qed

text \<open>
  C4. For every list \<open>L\<close>, search text \<open>s\<close> and type filter \<open>f\<close>, the filtered list holds
  exactly the transactions of \<open>L\<close> (with their multiplicity) whose description or category
  contains \<open>s\<close> as a case-insensitive substring and whose type matches \<open>f\<close>; its elements
  are elements of \<open>L\<close>; and, the dates of \<open>L\<close> being valid, filtering the result again
  with the same search text, filter and sort order gives the same list.
\<close>

theorem filteredTransactions_exact_and_idempotent:
  "mset (filteredTransactions getTime L s f ord) = filter_mset (matches s f) (mset L) \<and>
   set (filteredTransactions getTime L s f ord) \<subseteq> set L \<and>
   ((\<forall>t\<in>set L. getTime (date t) \<noteq> None) \<longrightarrow>
      filteredTransactions getTime (filteredTransactions getTime L s f ord) s f ord =
      filteredTransactions getTime L s f ord)"
proof (intro conjI impI)
  show "mset (filteredTransactions getTime L s f ord) = filter_mset (matches s f) (mset L)"
    by (rule mset_filteredTransactions)
  show "set (filteredTransactions getTime L s f ord) \<subseteq> set L"
    by (simp add: filteredTransactions_def set_array_sort)
  assume "\<forall>t\<in>set L. getTime (date t) \<noteq> None"
  then show "filteredTransactions getTime (filteredTransactions getTime L s f ord) s f ord =
      filteredTransactions getTime L s f ord"
    by (rule filteredTransactions_idem)
qed

text \<open>
  The three sample transactions searched for \<open>O\<close>, newest first: the coffee shop and the
  payroll match (by a lower-case o), the rent does not.
\<close>

theorem filteredTransactions_exact_and_idempotent_witness:
  "filteredTransactions sample_getTime [tx_salary, tx_coffee, tx_rent] ''O'' all desc =
     [tx_coffee, tx_salary] \<and>
   filter_mset (matches ''O'' all) (mset [tx_salary, tx_coffee, tx_rent]) =
     {#tx_coffee, tx_salary#} \<and>
   filteredTransactions sample_getTime
     (filteredTransactions sample_getTime [tx_salary, tx_coffee, tx_rent] ''O'' all desc)
     ''O'' all desc = [tx_coffee, tx_salary]"
proof -
  have v: "\<forall>t\<in>set [tx_salary, tx_coffee, tx_rent]. sample_getTime (date t) \<noteq> None"
    by (simp add: sample_getTime_def tx_salary_def tx_coffee_def tx_rent_def)
  have e: "filteredTransactions sample_getTime [tx_salary, tx_coffee, tx_rent] ''O'' all desc =
      [tx_coffee, tx_salary]"
    by (simp add: filteredTransactions_def matchesSearch_def matchesType_def toLowerCase_def
        lower_char_def tx_salary_def tx_coffee_def tx_rent_def array_sort_def SortCompare_def
        compareFn_def sample_getTime_def)
  show ?thesis
    using v filteredTransactions_exact_and_idempotent
      [of sample_getTime "[tx_salary, tx_coffee, tx_rent]" "''O''" all desc]
    unfolding e by simp
qed

subsection \<open>Pagination\<close>

lemma slice_from_start:
  assumes "0 < l"
  shows "slice xs 0 l = take (min (nat l) (length xs)) xs"
  using assms by (simp add: slice_def Let_def min_def)

lemma take_drop_positions:
  "take n (drop a xs) = map ((!) xs) [a ..< min (a + n) (length xs)]"
proof (rule nth_equalityI)
  show "length (take n (drop a xs)) = length (map ((!) xs) [a ..< min (a + n) (length xs)])"
    by (simp only: length_take length_drop length_map length_upt)
next
  fix i
  assume "i < length (take n (drop a xs))"
  then have "i < n" and "a + i < length xs"
    by auto
  then show "take n (drop a xs) ! i = map ((!) xs) [a ..< min (a + n) (length xs)] ! i"
    by simp
qed

lemma slice_window:
  assumes "0 \<le> start" "0 \<le> n"
  shows "slice xs start (start + n) = take (nat n) (drop (nat start) xs)"
proof -
  let ?len = "int (length xs)"
  consider (inside) "start + n \<le> ?len" | (over) "start \<le> ?len" "?len < start + n"
    | (beyond) "?len < start"
    by linarith
  then show ?thesis
  proof cases
    case inside
    then have "slice xs start (start + n) = take (nat (start + n - start)) (drop (nat start) xs)"
      using assms by (simp add: slice_def Let_def min_def)
    then show ?thesis by simp
  next
    case over
    then have "slice xs start (start + n) = take (nat (?len - start)) (drop (nat start) xs)"
      using assms by (simp add: slice_def Let_def min_def)
    moreover have "length (drop (nat start) xs) \<le> nat (?len - start)"
      using assms over by simp
    moreover have "length (drop (nat start) xs) \<le> nat n"
      using assms over by simp
    ultimately show ?thesis by simp
  next
    case beyond
    then show ?thesis
      using assms by (simp add: slice_def Let_def min_def)
  qed
qed

lemma paginated_limit:
  assumes "0 < l"
  shows "paginatedTransactions xs (Some l) pageSize currentPage = take (min (nat l) (length xs)) xs"
  using assms by (simp add: paginatedTransactions_def slice_from_start)

lemma paginated_page:
  assumes "0 < ps" "1 \<le> p"
  shows "paginatedTransactions xs None (Some ps) p = take (nat ps) (drop (nat ((p - 1) * ps)) xs)"
  using assms by (simp add: paginatedTransactions_def Let_def slice_window)

lemma page_nonempty_iff:
  assumes "0 < ps" "1 \<le> p"
  shows "paginatedTransactions xs None (Some ps) p \<noteq> [] \<longleftrightarrow> p \<le> totalPages xs (Some ps)"
proof -
  have nn: "0 \<le> (p - 1) * ps"
    using assms by simp
  have "paginatedTransactions xs None (Some ps) p = take (nat ps) (drop (nat ((p - 1) * ps)) xs)"
    using assms by (rule paginated_page)
  moreover have "0 < nat ps"
    using assms by simp
  ultimately have "paginatedTransactions xs None (Some ps) p \<noteq> [] \<longleftrightarrow>
      nat ((p - 1) * ps) < length xs"
    by (simp add: take_eq_Nil not_le)
  also have "\<dots> \<longleftrightarrow> (p - 1) * ps < int (length xs)"
    using nn by linarith
  also have "\<dots> \<longleftrightarrow> real_of_int ((p - 1) * ps) < real_of_int (int (length xs))"
    by (simp only: of_int_less_iff)
  also have "\<dots> \<longleftrightarrow> real_of_int (p - 1) * real_of_int ps < real (length xs)"
    by simp
  also have "\<dots> \<longleftrightarrow> real_of_int (p - 1) < real (length xs) / real_of_int ps"
    using assms by (simp only: pos_less_divide_eq of_int_0_less_iff)
  also have "\<dots> \<longleftrightarrow> p - 1 < \<lceil>real (length xs) / real_of_int ps\<rceil>"
    by (simp only: less_ceiling_iff)
  also have "\<dots> \<longleftrightarrow> p \<le> \<lceil>real (length xs) / real_of_int ps\<rceil>"
    by arith
  also have "\<dots> \<longleftrightarrow> p \<le> totalPages xs (Some ps)"
    using assms by (simp add: totalPages_def)
  finally show ?thesis .
qed

lemma page_window:
  assumes "0 < ps" "1 \<le> p"
  shows "nat ((p - 1) * ps) + nat ps = nat (p * ps)"
proof -
  have "0 \<le> (p - 1) * ps"
    using assms by simp
  moreover have "(p - 1) * ps + ps = p * ps"
    by (simp add: algebra_simps)
  ultimately show ?thesis
    using assms by (metis less_imp_le nat_add_distrib)
qed

text \<open>
  C5. With a page size \<open>ps > 0\<close>, no limit and a current page \<open>p \<ge> 1\<close>, the rows shown are
  the elements of the filtered and sorted list at positions \<open>(p - 1) * ps\<close> up to, not
  including, \<open>p * ps\<close>; the page count is the ceiling of the list's length over \<open>ps\<close>, and
  page \<open>p\<close> has rows exactly when \<open>p\<close> is at most the page count; \<^verbatim>\<open>next\<close> on the last page
  and \<^verbatim>\<open>previous\<close> on page 1 leave the page as it is. For 37 rows and \<open>ps = 25\<close>, page 1
  is the first 25 rows, page 2 the other 12, and \<^verbatim>\<open>next\<close> on page 2 stays on page 2.
\<close>

theorem paginatedTransactions_pages:
  assumes "0 < ps" "1 \<le> p"
  shows
    "paginatedTransactions xs None (Some ps) p =
       map ((!) xs) [nat ((p - 1) * ps) ..< min (nat (p * ps)) (length xs)] \<and>
     totalPages xs (Some ps) = \<lceil>real (length xs) / real_of_int ps\<rceil> \<and>
     (paginatedTransactions xs None (Some ps) p \<noteq> [] \<longleftrightarrow> p \<le> totalPages xs (Some ps)) \<and>
     handleNextPage xs (Some ps) (totalPages xs (Some ps)) = totalPages xs (Some ps) \<and>
     handlePrevPage 1 = 1 \<and>
     (length xs = 37 \<and> ps = 25 \<longrightarrow>
        paginatedTransactions xs None (Some ps) 1 = take 25 xs \<and>
        paginatedTransactions xs None (Some ps) 2 = drop 25 xs \<and>
        length (drop 25 xs) = 12 \<and>
        totalPages xs (Some ps) = 2 \<and>
        handleNextPage xs (Some ps) 2 = 2)"
proof (intro conjI impI)
  show "paginatedTransactions xs None (Some ps) p =
      map ((!) xs) [nat ((p - 1) * ps) ..< min (nat (p * ps)) (length xs)]"
    using assms by (simp only: paginated_page take_drop_positions page_window)
  show "totalPages xs (Some ps) = \<lceil>real (length xs) / real_of_int ps\<rceil>"
    using assms by (simp add: totalPages_def)
  show "paginatedTransactions xs None (Some ps) p \<noteq> [] \<longleftrightarrow> p \<le> totalPages xs (Some ps)"
    using assms by (rule page_nonempty_iff)
  show "handleNextPage xs (Some ps) (totalPages xs (Some ps)) = totalPages xs (Some ps)"
    by (simp add: handleNextPage_def)
  show "handlePrevPage 1 = 1"
    by (simp add: handlePrevPage_def)
next
  assume a: "length xs = 37 \<and> ps = 25"
  then show "paginatedTransactions xs None (Some ps) 1 = take 25 xs"
    by (simp add: paginated_page)
  from a show "paginatedTransactions xs None (Some ps) 2 = drop 25 xs"
    by (simp add: paginated_page)
  from a show "length (drop 25 xs) = 12"
    by simp
  from a show "totalPages xs (Some ps) = 2"
    by (simp add: totalPages_def)
  from a show "handleNextPage xs (Some ps) 2 = 2"
    by (simp add: totalPages_def handleNextPage_def)
qed

text \<open>The rows numbered 1 to 37, with 25 rows to the page.\<close>

theorem paginatedTransactions_pages_witness:
  "(0::int) < 25 \<and> (1::int) \<le> 2 \<and> length [1 ..< 38 :: nat] = 37 \<and>
   paginatedTransactions [1 ..< 38 :: nat] None (Some 25) 1 = [1 ..< 26] \<and>
   paginatedTransactions [1 ..< 38 :: nat] None (Some 25) 2 = [26 ..< 38] \<and>
   totalPages [1 ..< 38 :: nat] (Some 25) = 2 \<and>
   handleNextPage [1 ..< 38 :: nat] (Some 25) 2 = 2"
proof -
  have h1: "(0::int) < 25" and h2: "(1::int) \<le> 2"
    by simp_all
  show ?thesis
    using paginatedTransactions_pages[OF h1 h2, of "[1 ..< 38 :: nat]"]
    by simp
qed

text \<open>
  C10. With a limit \<open>l > 0\<close>, whatever the page size and the current page, the rows shown
  are the first \<open>min l n\<close> of the \<open>n\<close> elements of the filtered and sorted list; moving to
  the next or the previous page changes nothing in them.
\<close>

theorem limit_takes_precedence:
  assumes "0 < l"
  shows
    "paginatedTransactions xs (Some l) pageSize currentPage =
       take (min (nat l) (length xs)) xs \<and>
     paginatedTransactions xs (Some l) pageSize (handleNextPage xs pageSize currentPage) =
       paginatedTransactions xs (Some l) pageSize currentPage \<and>
     paginatedTransactions xs (Some l) pageSize (handlePrevPage currentPage) =
       paginatedTransactions xs (Some l) pageSize currentPage"
  using assms by (simp add: paginated_limit)

text \<open>The dashboard's limit of 10 together with a page size of 25, on 37 rows.\<close>

theorem limit_takes_precedence_witness:
  "(0::int) < 10 \<and>
   paginatedTransactions [1 ..< 38 :: nat] (Some 10) (Some 25) 1 = [1 ..< 11] \<and>
   paginatedTransactions [1 ..< 38 :: nat] (Some 10) (Some 25) 2 = [1 ..< 11] \<and>
   paginatedTransactions [1 ..< 38 :: nat] (Some 10) (Some 25)
     (handleNextPage [1 ..< 38 :: nat] (Some 25) 1) = [1 ..< 11]"
proof -
  have h: "(0::int) < 10"
    by simp
  show ?thesis
    using limit_takes_precedence[OF h, of "[1 ..< 38 :: nat]" "Some 25" 1]
      limit_takes_precedence[OF h, of "[1 ..< 38 :: nat]" "Some 25" 2]
    by simp
qed

end
